theory Spec2Isabelle
  imports Main "HOL-Library.Word"
begin

section \<open>The URL shortener of Projects/2.URLShortener/main.go\<close>

text \<open>
  The program keeps one global map \<^verbatim>\<open>urlStore\<close> from short codes to long URLs and
  serves two handlers: \<^verbatim>\<open>shortenURLHandler\<close> (POST /shorten) and \<^verbatim>\<open>redirectHandler\<close>
  (every other path). Both handlers are modelled as functions from the request and the
  store to the response and the store. What a call takes from outside the program is an
  argument of the model: what \<^verbatim>\<open>crypto/rand.Read\<close> does, the order in which Go's
  \<^verbatim>\<open>range\<close> visits the keys of the map, and what \<^verbatim>\<open>net/url\<close> makes of a redirect
  target beyond its scheme. The program runs on every Go from 1.16 on (README), so the
  behaviours of the standard library that differ between these versions are all outcomes
  of the model.
\<close>

subsection \<open>Data\<close>

type_synonym byte = "8 word"

record URLRequest =
  LongURL :: string

record URLResponse =
  ShortURL :: string

text \<open>\<^verbatim>\<open>var urlStore = make(map[string]string)\<close>: short code to long URL.\<close>

type_synonym url_store = "string \<rightharpoonup> string"

definition shortCodeLength :: nat where
  "shortCodeLength = 8"

text \<open>
  The part of \<^verbatim>\<open>*http.Request\<close> the handlers read. \<open>Body\<close> is the result of
  \<^verbatim>\<open>json.NewDecoder(r.Body).Decode(&req)\<close>: \<open>None\<close> when decoding returns an error.
\<close>

record request =
  Method :: string
  Body :: "URLRequest option"
  Path :: string

text \<open>
  What a handler writes: \<^verbatim>\<open>http.Error(w, msg, status)\<close>, a JSON-encoded
  \<^verbatim>\<open>URLResponse\<close>, or the redirect of \<^verbatim>\<open>http.Redirect(w, r, url, status)\<close>, given by
  the \<^verbatim>\<open>Location\<close> header it sets and the status.
\<close>

datatype response =
    Error string nat
  | Json URLResponse
  | Redirect string nat

text \<open>A run-time panic of the handler (recovered by net/http, which drops the request).\<close>

datatype panic = SliceBoundsOutOfRange

text \<open>
  The process is aborted by the Go runtime: no response is written and the server, with
  its store, is gone.
\<close>

datatype fatal = RandReadFatal

subsection \<open>The randomness source\<close>

text \<open>
  One call of \<^verbatim>\<open>rand.Read(b)\<close>. It writes bytes to the front of \<open>b\<close> and returns no
  error (\<open>ReadOk\<close>); or, on Go before 1.24, it returns an error after the bytes it could
  still write (\<open>ReadError\<close>); or, on Go 1.24 and later, where \<^verbatim>\<open>Read\<close> never returns an
  error, a failing reader makes the runtime abort the process (\<open>ReadFatal\<close>). Bytes
  beyond the length of \<open>b\<close> are never written, and the part of \<open>b\<close> that is not reached
  keeps its contents.
\<close>

datatype rand_outcome =
    ReadOk "byte list"
  | ReadError "byte list"
  | ReadFatal

definition make_bytes :: "nat \<Rightarrow> byte list" where
  "make_bytes n = replicate n 0"

definition written :: "byte list \<Rightarrow> byte list \<Rightarrow> byte list" where
  "written bs b = take (length b) (bs @ drop (length bs) b)"

fun rand_Read :: "rand_outcome \<Rightarrow> byte list \<Rightarrow> fatal + byte list \<times> bool" where
  "rand_Read (ReadOk bs) b = Inr (written bs b, False)"
| "rand_Read (ReadError bs) b = Inr (written bs b, True)"
| "rand_Read ReadFatal b = Inl RandReadFatal"

subsection \<open>Encodings used by the generator\<close>

text \<open>The alphabet of \<^verbatim>\<open>base64.URLEncoding\<close>, padded with \<open>=\<close>.\<close>

definition encodeURL :: string where
  "encodeURL = ''ABCDEFGHIJKLMNOPQRSTUVWXYZabcdefghijklmnopqrstuvwxyz0123456789-_''"

definition sextet :: "nat \<Rightarrow> nat \<Rightarrow> char" where
  "sextet val shift = encodeURL ! ((val div 2 ^ shift) mod 64)"

text \<open>
  \<^verbatim>\<open>EncodeToString\<close>: three bytes make a 24-bit value that is written as four
  characters; a rest of one or two bytes is written as two or three characters and padded.
\<close>

fun EncodeToString :: "byte list \<Rightarrow> string" where
  "EncodeToString (a # b # c # src) =
     (let val = unat a * 65536 + unat b * 256 + unat c
      in [sextet val 18, sextet val 12, sextet val 6, sextet val 0] @ EncodeToString src)"
| "EncodeToString [a, b] =
     (let val = unat a * 65536 + unat b * 256
      in [sextet val 18, sextet val 12, sextet val 6, CHR ''=''])"
| "EncodeToString [a] =
     (let val = unat a * 65536
      in [sextet val 18, sextet val 12, CHR ''='', CHR ''=''])"
| "EncodeToString [] = []"

text \<open>\<^verbatim>\<open>fmt.Sprintf("%x", b)\<close> on a byte slice: two lower-case hex digits for each byte.\<close>

definition ldigits :: string where
  "ldigits = ''0123456789abcdef''"

definition Sprintf_x :: "byte list \<Rightarrow> string" where
  "Sprintf_x b = concat (map (\<lambda>x. [ldigits ! (unat x div 16), ldigits ! (unat x mod 16)]) b)"

subsection \<open>generateShortCode\<close>

text \<open>
  The buffer has \<open>shortCodeLength\<close> bytes, so both encodings are longer than
  \<open>shortCodeLength\<close> characters (12 and 16) and the slice \<^verbatim>\<open>[:shortCodeLength]\<close> is
  always in range (lemmas \<open>length_EncodeToString\<close> and
  \<open>length_Sprintf_x\<close> below); \<open>take\<close> is that slice. The log line is not modelled.
\<close>

definition generateShortCode :: "rand_outcome \<Rightarrow> fatal + string" where
  "generateShortCode r =
     (case rand_Read r (make_bytes shortCodeLength) of
        Inl f \<Rightarrow> Inl f
      | Inr (b, err) \<Rightarrow>
          if err then Inr (take shortCodeLength (Sprintf_x b))
          else Inr (take shortCodeLength (EncodeToString b)))"

subsection \<open>shortenURLHandler\<close>

text \<open>
  The loop \<^verbatim>\<open>for short, long := range urlStore\<close>, visiting the keys in the order
  \<open>keys\<close>: the first key whose value is the long URL is returned.
\<close>

fun range_urlStore :: "string list \<Rightarrow> url_store \<Rightarrow> string \<Rightarrow> string option" where
  "range_urlStore [] urlStore longURL = None"
| "range_urlStore (short # keys) urlStore longURL =
     (if urlStore short = Some longURL then Some short
      else range_urlStore keys urlStore longURL)"

definition short_url :: "string \<Rightarrow> URLResponse" where
  "short_url code = \<lparr>ShortURL = ''http://localhost:8080/'' @ code\<rparr>"

definition shortenURLHandler ::
  "string list \<Rightarrow> rand_outcome \<Rightarrow> request \<Rightarrow> url_store \<Rightarrow> fatal + response \<times> url_store" where
  "shortenURLHandler keys rnd r urlStore =
     (if Method r \<noteq> ''POST'' then Inr (Error ''Method not allowed'' 405, urlStore)
      else case Body r of
        None \<Rightarrow> Inr (Error ''Invalid request body'' 400, urlStore)
      | Some req \<Rightarrow>
          if LongURL req = [] then Inr (Error ''Long URL cannot be empty'' 400, urlStore)
          else case range_urlStore keys urlStore (LongURL req) of
            Some short \<Rightarrow> Inr (Json (short_url short), urlStore)
          | None \<Rightarrow>
              (case generateShortCode rnd of
                 Inl f \<Rightarrow> Inl f
               | Inr shortCode \<Rightarrow>
                   Inr (Json (short_url shortCode), urlStore(shortCode \<mapsto> LongURL req))))"

subsection \<open>http.Redirect\<close>

text \<open>
  \<^verbatim>\<open>http.Redirect(w, r, url, code)\<close> does not send \<open>url\<close> as it is. It parses it with
  \<^verbatim>\<open>url.Parse\<close>; when that succeeds and finds neither a scheme nor a host, the target is
  a relative reference and is made an absolute path against the path of the request. The
  \<^verbatim>\<open>Location\<close> header is the result with every byte from 128 on escaped.
\<close>

definition byte_of :: "char \<Rightarrow> nat" where
  "byte_of c = of_char c"

definition is_letter :: "char \<Rightarrow> bool" where
  "is_letter c = (97 \<le> byte_of c \<and> byte_of c \<le> 122 \<or> 65 \<le> byte_of c \<and> byte_of c \<le> 90)"

definition is_scheme_char :: "char \<Rightarrow> bool" where
  "is_scheme_char c =
     (48 \<le> byte_of c \<and> byte_of c \<le> 57 \<or> c = CHR ''+'' \<or> c = CHR ''-'' \<or> c = CHR ''.'')"

datatype url_error = MissingProtocolScheme

text \<open>
  \<^verbatim>\<open>getScheme(rawURL)\<close> of net/url: the scheme and the rest, or no scheme and the whole
  string. \<open>seen\<close> is \<^verbatim>\<open>rawURL[:i]\<close>, so \<open>seen = []\<close> is the test \<^verbatim>\<open>i == 0\<close>.
\<close>

fun scan_scheme :: "string \<Rightarrow> string \<Rightarrow> string \<Rightarrow> url_error + string \<times> string" where
  "scan_scheme rawURL seen [] = Inr ([], rawURL)"
| "scan_scheme rawURL seen (c # cs) =
     (if is_letter c then scan_scheme rawURL (seen @ [c]) cs
      else if is_scheme_char c then
        (if seen = [] then Inr ([], rawURL) else scan_scheme rawURL (seen @ [c]) cs)
      else if c = CHR '':'' then
        (if seen = [] then Inl MissingProtocolScheme else Inr (seen, cs))
      else Inr ([], rawURL))"

definition getScheme :: "string \<Rightarrow> url_error + string \<times> string" where
  "getScheme rawURL = scan_scheme rawURL [] rawURL"

definition stringContainsCTLByte :: "string \<Rightarrow> bool" where
  "stringContainsCTLByte s = list_ex (\<lambda>c. byte_of c < 32 \<or> byte_of c = 127) s"

text \<open>
  What \<^verbatim>\<open>url.Parse\<close> makes of a target in which it has found no scheme (query,
  authority, path and fragment): it rejects it, it finds a host, or neither. This part of
  net/url is not modelled; its verdict is an argument of the call.
\<close>

datatype parse_rest = RestError | RestHost | RestPlain

text \<open>
  \<^verbatim>\<open>err == nil && u.Scheme == "" && u.Host == ""\<close> for \<^verbatim>\<open>u, err := url.Parse(url)\<close>. The
  fragment is cut off first; a control byte is an error; \<^verbatim>\<open>*\<close> has no scheme; a scheme
  that is found settles the test, whatever follows.
\<close>

definition url_Parse_relative :: "parse_rest \<Rightarrow> string \<Rightarrow> bool" where
  "url_Parse_relative rest rawURL =
     (let u = takeWhile (\<lambda>c. c \<noteq> CHR ''#'') rawURL
      in if stringContainsCTLByte u then False
         else if u = ''*'' then rest = RestPlain
         else case getScheme u of
                Inl _ \<Rightarrow> False
              | Inr (scheme, _) \<Rightarrow> scheme = [] \<and> rest = RestPlain)"

text \<open>\<^verbatim>\<open>path.Split\<close>: the directory is the path up to and with its last slash.\<close>

definition path_Split :: "string \<Rightarrow> string \<times> string" where
  "path_Split p =
     (rev (dropWhile (\<lambda>c. c \<noteq> CHR ''/'') (rev p)), rev (takeWhile (\<lambda>c. c \<noteq> CHR ''/'') (rev p)))"

fun split_slash :: "string \<Rightarrow> string list" where
  "split_slash [] = [[]]"
| "split_slash (c # cs) =
     (if c = CHR ''/'' then [] # split_slash cs
      else case split_slash cs of
             w # ws \<Rightarrow> (c # w) # ws
           | [] \<Rightarrow> [[c]])"

fun join_slash :: "string list \<Rightarrow> string" where
  "join_slash [] = []"
| "join_slash [w] = w"
| "join_slash (w # ws) = w @ CHR ''/'' # join_slash ws"

text \<open>
  \<^verbatim>\<open>path.Clean\<close>, element by element. \<open>out\<close> holds the elements written so far, the last
  one first. An empty element and \<^verbatim>\<open>.\<close> are dropped; \<^verbatim>\<open>..\<close> removes the element before it,
  is dropped at the root of a rooted path, and is kept at the front of a path that is not
  rooted.
\<close>

fun clean_elements :: "bool \<Rightarrow> string list \<Rightarrow> string list \<Rightarrow> string list" where
  "clean_elements rooted [] out = rev out"
| "clean_elements rooted (e # es) out =
     (if e = [] \<or> e = ''.'' then clean_elements rooted es out
      else if e = ''..'' then
        (case out of
           [] \<Rightarrow> if rooted then clean_elements rooted es [] else clean_elements rooted es [''..'']
         | t # ts \<Rightarrow>
             if t = ''..'' then clean_elements rooted es (''..'' # out)
             else clean_elements rooted es ts)
      else clean_elements rooted es (e # out))"

definition path_Clean :: "string \<Rightarrow> string" where
  "path_Clean p =
     (if p = [] then ''.''
      else let rooted = (hd p = CHR ''/'');
               cleaned = join_slash (clean_elements rooted (split_slash p) [])
           in if rooted then CHR ''/'' # cleaned
              else if cleaned = [] then ''.'' else cleaned)"

definition HasSuffix_slash :: "string \<Rightarrow> bool" where
  "HasSuffix_slash s = (s \<noteq> [] \<and> last s = CHR ''/'')"

text \<open>The body of the test in \<^verbatim>\<open>http.Redirect\<close>: the relative target made absolute.\<close>

definition make_absolute :: "string \<Rightarrow> string \<Rightarrow> string" where
  "make_absolute oldpath0 url0 =
     (let oldpath = (if oldpath0 = [] then ''/'' else oldpath0);
          url1 = (if url0 = [] \<or> hd url0 \<noteq> CHR ''/'' then fst (path_Split oldpath) @ url0 else url0);
          url2 = takeWhile (\<lambda>c. c \<noteq> CHR ''?'') url1;
          query = dropWhile (\<lambda>c. c \<noteq> CHR ''?'') url1;
          trailing = HasSuffix_slash url2;
          url3 = path_Clean url2;
          url4 = (if trailing \<and> \<not> HasSuffix_slash url3 then url3 @ ''/'' else url3)
      in url4 @ query)"

text \<open>
  \<^verbatim>\<open>hexEscapeNonASCII\<close>: a byte from 128 on becomes \<^verbatim>\<open>%\<close> and its two lower-case hex
  digits.
\<close>

definition hexEscapeNonASCII :: "string \<Rightarrow> string" where
  "hexEscapeNonASCII s =
     concat (map (\<lambda>c. if 128 \<le> byte_of c
                        then [CHR ''%'', ldigits ! (byte_of c div 16), ldigits ! (byte_of c mod 16)]
                        else [c]) s)"

definition http_Redirect_Location :: "parse_rest \<Rightarrow> string \<Rightarrow> string \<Rightarrow> string" where
  "http_Redirect_Location rest oldpath url =
     hexEscapeNonASCII (if url_Parse_relative rest url then make_absolute oldpath url else url)"

text \<open>
  Two properties of a target, read off the string: \<^verbatim>\<open>url.Parse\<close> finds a scheme in it,
  and all its bytes are below 128.
\<close>

definition has_scheme :: "string \<Rightarrow> bool" where
  "has_scheme rawURL =
     (case getScheme (takeWhile (\<lambda>c. c \<noteq> CHR ''#'') rawURL) of
        Inl _ \<Rightarrow> False
      | Inr (scheme, _) \<Rightarrow> scheme \<noteq> [])"

definition is_ascii :: "string \<Rightarrow> bool" where
  "is_ascii s = list_all (\<lambda>c. byte_of c < 128) s"

subsection \<open>redirectHandler\<close>

text \<open>\<^verbatim>\<open>r.URL.Path[1:]\<close> panics on the empty path.\<close>

definition redirectHandler ::
  "parse_rest \<Rightarrow> request \<Rightarrow> url_store \<Rightarrow> panic + response \<times> url_store" where
  "redirectHandler rest r urlStore =
     (case Path r of
        [] \<Rightarrow> Inl SliceBoundsOutOfRange
      | _ # shortCode \<Rightarrow>
          (case urlStore shortCode of
             None \<Rightarrow> Inr (Error ''Short URL not found'' 404, urlStore)
           | Some longURL \<Rightarrow>
               Inr (Redirect (http_Redirect_Location rest (Path r) longURL) 302, urlStore)))"

subsection \<open>Requests and runs\<close>

text \<open>A well-formed shortening request for a long URL, and a lookup of a short code.\<close>

definition shorten_request :: "string \<Rightarrow> request" where
  "shorten_request longURL =
     \<lparr>Method = ''POST'', Body = Some \<lparr>LongURL = longURL\<rparr>, Path = ''/shorten''\<rparr>"

definition resolve_request :: "string \<Rightarrow> request" where
  "resolve_request code = \<lparr>Method = ''GET'', Body = None, Path = CHR ''/'' # code\<rparr>"

text \<open>
  A handler invocation, and the store after a sequence of them: each runs under the
  mutex, one after the other, and the sequence ends where the process is aborted, with
  the store as it is then.
\<close>

datatype call =
    CallShorten "string list" rand_outcome request
  | CallRedirect parse_rest request

fun serve :: "call \<Rightarrow> url_store \<Rightarrow> fatal + url_store" where
  "serve (CallShorten keys rnd r) urlStore =
     (case shortenURLHandler keys rnd r urlStore of
        Inl f \<Rightarrow> Inl f
      | Inr (_, urlStore') \<Rightarrow> Inr urlStore')"
| "serve (CallRedirect rest r) urlStore =
     (case redirectHandler rest r urlStore of
        Inl _ \<Rightarrow> Inr urlStore
      | Inr (_, urlStore') \<Rightarrow> Inr urlStore')"

fun run :: "call list \<Rightarrow> url_store \<Rightarrow> url_store" where
  "run [] urlStore = urlStore"
| "run (c # cs) urlStore =
     (case serve c urlStore of
        Inl _ \<Rightarrow> urlStore
      | Inr urlStore' \<Rightarrow> run cs urlStore')"

text \<open>
  The stores the server can be in: it starts empty, and every call of
  \<open>shortenURLHandler\<close> ranges over exactly the keys of the current map.
\<close>

inductive reachable :: "url_store \<Rightarrow> bool" where
  init: "reachable Map.empty"
| shorten: "reachable urlStore \<Longrightarrow> set keys = dom urlStore \<Longrightarrow>
     shortenURLHandler keys rnd r urlStore = Inr (resp, urlStore') \<Longrightarrow> reachable urlStore'"
| redirect: "reachable urlStore \<Longrightarrow> redirectHandler rest r urlStore = Inr (resp, urlStore') \<Longrightarrow>
     reachable urlStore'"

section \<open>Properties\<close>

subsection \<open>The generator\<close>

lemma length_written: "length (written bs b) = length b"
  by (simp add: written_def)

lemma length_EncodeToString: "length (EncodeToString src) = 4 * ((length src + 2) div 3)"
proof (induction src rule: EncodeToString.induct)
  case (1 a b c src)
  have "(length src + 5) div 3 = Suc ((length src + 2) div 3)"
    by presburger
  with 1 show ?case
    by (simp add: Let_def add.commute)
qed (simp_all add: Let_def)

lemma length_Sprintf_x: "length (Sprintf_x b) = 2 * length b"
  by (induction b) (simp_all add: Sprintf_x_def)

lemma generateShortCode_ReadOk:
  "generateShortCode (ReadOk bs) =
     Inr (take shortCodeLength (EncodeToString (written bs (make_bytes shortCodeLength))))"
  by (simp add: generateShortCode_def)

lemma generateShortCode_ReadError:
  "generateShortCode (ReadError bs) =
     Inr (take shortCodeLength (Sprintf_x (written bs (make_bytes shortCodeLength))))"
  by (simp add: generateShortCode_def)

lemma generateShortCode_ReadFatal: "generateShortCode ReadFatal = Inl RandReadFatal"
  by (simp add: generateShortCode_def)

lemma length_generateShortCode:
  "generateShortCode r = Inr code \<Longrightarrow> length code = shortCodeLength"
  by (cases r)
    (auto simp: generateShortCode_ReadOk generateShortCode_ReadError generateShortCode_ReadFatal
      length_written make_bytes_def shortCodeLength_def length_EncodeToString length_Sprintf_x)

lemma generateShortCode_Inl: "generateShortCode r = Inl f \<longleftrightarrow> r = ReadFatal"
  by (cases r; cases f)
    (simp_all add: generateShortCode_ReadOk generateShortCode_ReadError generateShortCode_ReadFatal)

subsection \<open>The dedup scan and the store\<close>

lemma range_urlStore_Some:
  "range_urlStore keys urlStore longURL = Some short \<Longrightarrow> urlStore short = Some longURL"
  by (induction keys) (auto split: if_splits)

lemma range_urlStore_None:
  "range_urlStore keys urlStore longURL = None \<longleftrightarrow> (\<forall>k \<in> set keys. urlStore k \<noteq> Some longURL)"
  by (induction keys) auto

lemma range_urlStore_None_ran:
  assumes "set keys = dom urlStore"
  shows "range_urlStore keys urlStore longURL = None \<longleftrightarrow> longURL \<notin> ran urlStore"
  using assms by (auto simp: range_urlStore_None ran_def dom_def)

lemma shortenURLHandler_cases:
  assumes "longURL \<noteq> []"
  shows "shortenURLHandler keys rnd (shorten_request longURL) urlStore =
     (case range_urlStore keys urlStore longURL of
        Some short \<Rightarrow> Inr (Json (short_url short), urlStore)
      | None \<Rightarrow>
          (case generateShortCode rnd of
             Inl f \<Rightarrow> Inl f
           | Inr code \<Rightarrow> Inr (Json (short_url code), urlStore(code \<mapsto> longURL))))"
  using assms
  by (simp add: shortenURLHandler_def shorten_request_def split: option.splits sum.splits)

lemma shortenURLHandler_store:
  assumes "shortenURLHandler keys rnd r urlStore = Inr (resp, urlStore')"
  shows "urlStore' = urlStore \<or>
   (\<exists>req code. Body r = Some req \<and> LongURL req \<noteq> [] \<and>
      range_urlStore keys urlStore (LongURL req) = None \<and> generateShortCode rnd = Inr code \<and>
      urlStore' = urlStore(code \<mapsto> LongURL req))"
  using assms
  by (auto simp: shortenURLHandler_def split: if_splits option.splits sum.splits)

lemma redirectHandler_store:
  "redirectHandler rest r urlStore = Inr (resp, urlStore') \<Longrightarrow> urlStore' = urlStore"
  by (auto simp: redirectHandler_def split: list.splits option.splits)

lemma inj_on_store_upd:
  assumes "inj_on urlStore (dom urlStore)" and "longURL \<notin> ran urlStore"
  shows "inj_on (urlStore(code \<mapsto> longURL)) (dom (urlStore(code \<mapsto> longURL)))"
proof (rule inj_onI)
  fix x y
  assume x: "x \<in> dom (urlStore(code \<mapsto> longURL))"
    and y: "y \<in> dom (urlStore(code \<mapsto> longURL))"
    and eq: "(urlStore(code \<mapsto> longURL)) x = (urlStore(code \<mapsto> longURL)) y"
  show "x = y"
  proof (cases "x = code")
    case True
    with eq have "(urlStore(code \<mapsto> longURL)) y = Some longURL" by simp
    with assms(2) show ?thesis using True
      by (auto simp: ran_def split: if_splits)
  next
    case xc: False
    show ?thesis
    proof (cases "y = code")
      case True
      with eq xc have "urlStore x = Some longURL" by simp
      with assms(2) show ?thesis by (auto simp: ran_def)
    next
      case False
      with xc x y eq have "x \<in> dom urlStore" "y \<in> dom urlStore" "urlStore x = urlStore y"
        by auto
      with assms(1) show ?thesis by (auto dest: inj_onD)
    qed
  qed
qed

lemma shortenURLHandler_inj:
  assumes "inj_on urlStore (dom urlStore)" and "set keys = dom urlStore"
    and "shortenURLHandler keys rnd r urlStore = Inr (resp, urlStore')"
  shows "inj_on urlStore' (dom urlStore')"
proof -
  consider "urlStore' = urlStore"
    | req :: URLRequest and code where "range_urlStore keys urlStore (LongURL req) = None"
      "urlStore' = urlStore(code \<mapsto> LongURL req)"
    using shortenURLHandler_store [OF assms(3)] by blast
  then show ?thesis
  proof cases
    case 1
    with assms(1) show ?thesis by simp
  next
    case 2
    from 2(1) assms(2) have "LongURL req \<notin> ran urlStore"
      by (simp add: range_urlStore_None_ran)
    with assms(1) show ?thesis
      unfolding 2(2) by (rule inj_on_store_upd)
  qed
qed

lemma reachable_inj: "reachable urlStore \<Longrightarrow> inj_on urlStore (dom urlStore)"
proof (induction rule: reachable.induct)
  case init
  show ?case by simp
next
  case (shorten urlStore keys rnd r resp urlStore')
  then show ?case by (auto intro: shortenURLHandler_inj)
next
  case (redirect urlStore rest r resp urlStore')
  then show ?case by (auto dest: redirectHandler_store)
qed

lemma reachable_one_code:
  assumes "reachable urlStore" "urlStore c1 = Some longURL" "urlStore c2 = Some longURL"
  shows "c1 = c2"
  using reachable_inj [OF assms(1)] assms(2,3) by (auto dest!: inj_onD [where x = c1 and y = c2])

lemma range_urlStore_finds:
  assumes "urlStore short = Some longURL" and "short \<in> set keys"
  shows "\<exists>short'. range_urlStore keys urlStore longURL = Some short'"
  using assms by (cases "range_urlStore keys urlStore longURL") (auto simp: range_urlStore_None)

lemma reachable_range_urlStore:
  assumes "reachable urlStore" and "set keys = dom urlStore" and "urlStore short = Some longURL"
  shows "range_urlStore keys urlStore longURL = Some short"
proof -
  from assms(2,3) have "short \<in> set keys" by auto
  with assms(3) obtain short' where f: "range_urlStore keys urlStore longURL = Some short'"
    using range_urlStore_finds by blast
  then have "urlStore short' = Some longURL" by (rule range_urlStore_Some)
  with assms(1,3) have "short' = short" by (auto dest: reachable_one_code)
  with f show ?thesis by simp
qed

lemma shortenURLHandler_maps:
  assumes "longURL \<noteq> []"
    and "shortenURLHandler keys rnd (shorten_request longURL) urlStore = Inr (resp, urlStore')"
  shows "\<exists>code. resp = Json (short_url code) \<and> urlStore' code = Some longURL"
proof (cases "range_urlStore keys urlStore longURL")
  case None
  with assms show ?thesis
    by (auto simp: shortenURLHandler_cases split: sum.splits)
next
  case (Some short)
  with assms show ?thesis
    by (auto simp: shortenURLHandler_cases dest: range_urlStore_Some)
qed

subsection \<open>Concrete calls\<close>

lemma written_counting:
  "written [1, 2, 3, 4, 5, 6, 7, 8] (make_bytes shortCodeLength) = [1, 2, 3, 4, 5, 6, 7, 8]"
  by (simp add: written_def make_bytes_def shortCodeLength_def)

lemma written_zeros:
  "written [0, 0, 0, 0, 0, 0, 0, 0] (make_bytes shortCodeLength) = [0, 0, 0, 0, 0, 0, 0, 0]"
  by (simp add: written_def make_bytes_def shortCodeLength_def)

lemma written_nothing:
  "written [] (make_bytes shortCodeLength) = [0, 0, 0, 0, 0, 0, 0, 0]"
  by (simp add: written_def make_bytes_def shortCodeLength_def eval_nat_numeral)

lemma generateShortCode_counting:
  "generateShortCode (ReadOk [1, 2, 3, 4, 5, 6, 7, 8]) = Inr ''AQIDBAUG''"
  unfolding generateShortCode_ReadOk written_counting
  by (simp add: shortCodeLength_def sextet_def encodeURL_def)

lemma generateShortCode_zeros:
  "generateShortCode (ReadOk [0, 0, 0, 0, 0, 0, 0, 0]) = Inr ''AAAAAAAA''"
  unfolding generateShortCode_ReadOk written_zeros
  by (simp add: shortCodeLength_def sextet_def encodeURL_def)

lemma generateShortCode_error_nothing:
  "generateShortCode (ReadError []) = Inr ''00000000''"
  unfolding generateShortCode_ReadError written_nothing
  by (simp add: shortCodeLength_def Sprintf_x_def ldigits_def)

lemma shorten_example_a:
  "shortenURLHandler [] (ReadOk [1, 2, 3, 4, 5, 6, 7, 8])
     (shorten_request ''https://example.com/a'') Map.empty =
   Inr (Json (short_url ''AQIDBAUG''), [''AQIDBAUG'' \<mapsto> ''https://example.com/a''])"
  by (simp add: shortenURLHandler_cases generateShortCode_counting)

lemma shorten_example_b:
  "shortenURLHandler [''AQIDBAUG''] (ReadOk [1, 2, 3, 4, 5, 6, 7, 8])
     (shorten_request ''https://example.com/b'') [''AQIDBAUG'' \<mapsto> ''https://example.com/a''] =
   Inr (Json (short_url ''AQIDBAUG''), [''AQIDBAUG'' \<mapsto> ''https://example.com/b''])"
  by (simp add: shortenURLHandler_cases generateShortCode_counting)

lemma reachable_example_a: "reachable [''AQIDBAUG'' \<mapsto> ''https://example.com/a'']"
proof -
  have "set [] = dom (Map.empty :: url_store)" by simp
  with reachable.init show ?thesis
    using shorten_example_a by (rule reachable.shorten)
qed

lemma reachable_example_b: "reachable [''AQIDBAUG'' \<mapsto> ''https://example.com/b'']"
proof -
  have "set [''AQIDBAUG''] = dom [''AQIDBAUG'' \<mapsto> ''https://example.com/a'']" by simp
  with reachable_example_a show ?thesis
    using shorten_example_b by (rule reachable.shorten)
qed

subsection \<open>The redirect target\<close>

lemma hexEscapeNonASCII_ascii: "is_ascii s \<Longrightarrow> hexEscapeNonASCII s = s"
  by (induction s) (simp_all add: hexEscapeNonASCII_def is_ascii_def)

lemma getScheme_star: "getScheme ''*'' = Inr ([], ''*'')"
  by (simp add: getScheme_def is_letter_def is_scheme_char_def byte_of_def)

lemma has_scheme_not_relative: "has_scheme url \<Longrightarrow> \<not> url_Parse_relative rest url"
  by (auto simp: has_scheme_def url_Parse_relative_def Let_def getScheme_star
      split: sum.splits if_splits)

lemma http_Redirect_Location_same:
  assumes "is_ascii url" and "has_scheme url \<or> rest \<noteq> RestPlain"
  shows "http_Redirect_Location rest oldpath url = url"
proof -
  from assms(2) have "\<not> url_Parse_relative rest url"
  proof
    assume "has_scheme url"
    then show ?thesis by (rule has_scheme_not_relative)
  next
    assume "rest \<noteq> RestPlain"
    then show ?thesis
      by (auto simp: url_Parse_relative_def Let_def split: sum.splits)
  qed
  with assms(1) show ?thesis
    by (simp add: http_Redirect_Location_def hexEscapeNonASCII_ascii)
qed

lemma has_scheme_example: "has_scheme ''https://example.com/a''"
  by (simp add: has_scheme_def getScheme_def is_letter_def is_scheme_char_def byte_of_def)

lemma is_ascii_example: "is_ascii ''https://example.com/a''"
  by (simp add: is_ascii_def byte_of_def)

lemma relative_example: "url_Parse_relative RestPlain ''example.com/a''"
  by (simp add: url_Parse_relative_def stringContainsCTLByte_def getScheme_def
      is_letter_def is_scheme_char_def byte_of_def)

lemma make_absolute_example: "make_absolute ''/AQIDBAUG'' ''example.com/a'' = ''/example.com/a''"
  by (simp add: make_absolute_def path_Split_def path_Clean_def HasSuffix_slash_def Let_def)

lemma Location_example:
  "http_Redirect_Location RestPlain ''/AQIDBAUG'' ''example.com/a'' = ''/example.com/a''"
  by (simp add: http_Redirect_Location_def relative_example make_absolute_example
      hexEscapeNonASCII_def byte_of_def)

subsection \<open>Claims\<close>

text \<open>
  C2 (idempotence). In every reachable store, when a request to shorten a long URL is
  served and the same request is served again, each call ranging over the keys of the
  map in some order and with some behaviour of the randomness source, the second call
  gives the same answer as the first and leaves the store as the first call left it.
\<close>

theorem shorten_idempotent:
  assumes "reachable urlStore" and "set keys = dom urlStore"
    and "shortenURLHandler keys rnd (shorten_request longURL) urlStore = Inr (resp, urlStore')"
    and "set keys' = dom urlStore'"
  shows "shortenURLHandler keys' rnd' (shorten_request longURL) urlStore' = Inr (resp, urlStore')"
proof (cases "longURL = []")
  case True
  with assms(3) show ?thesis
    by (simp add: shortenURLHandler_def shorten_request_def)
next
  case ne: False
  from assms(1-3) have r': "reachable urlStore'" by (rule reachable.shorten)
  from ne assms(3) obtain code
    where c: "resp = Json (short_url code)" "urlStore' code = Some longURL"
    using shortenURLHandler_maps by blast
  from r' assms(4) c(2) have "range_urlStore keys' urlStore' longURL = Some code"
    by (rule reachable_range_urlStore)
  with ne c(1) show ?thesis
    by (simp add: shortenURLHandler_cases)
qed

theorem shorten_idempotent_witness:
  "shortenURLHandler [''AQIDBAUG''] (ReadOk [0, 0, 0, 0, 0, 0, 0, 0])
     (shorten_request ''https://example.com/a'') [''AQIDBAUG'' \<mapsto> ''https://example.com/a''] =
   Inr (Json (short_url ''AQIDBAUG''), [''AQIDBAUG'' \<mapsto> ''https://example.com/a''])"
proof -
  have k: "set [] = dom (Map.empty :: url_store)" by simp
  have k': "set [''AQIDBAUG''] = dom [''AQIDBAUG'' \<mapsto> ''https://example.com/a'']" by simp
  show ?thesis
    by (rule shorten_idempotent [OF reachable.init k shorten_example_a k'])
qed

text \<open>
  C3 (collision handling), as stated: refuted. The store holds the code AQIDBAUG for one
  long URL, the generator draws AQIDBAUG again for another: the call succeeds, answers
  with that code, and the record is overwritten. There is no CollisionError, no second
  candidate and no ExhaustedRetriesError.
\<close>

theorem collision_counterexample:
  "[''AQIDBAUG'' \<mapsto> ''https://example.com/a''] ''AQIDBAUG'' = Some ''https://example.com/a'' \<and>
   generateShortCode (ReadOk [1, 2, 3, 4, 5, 6, 7, 8]) = Inr ''AQIDBAUG'' \<and>
   shortenURLHandler [''AQIDBAUG''] (ReadOk [1, 2, 3, 4, 5, 6, 7, 8])
     (shorten_request ''https://example.com/b'') [''AQIDBAUG'' \<mapsto> ''https://example.com/a''] =
   Inr (Json (short_url ''AQIDBAUG''), [''AQIDBAUG'' \<mapsto> ''https://example.com/b''])"
  by (simp add: generateShortCode_counting shorten_example_b)

text \<open>
  C3, amended. The insert is the plain map assignment and cannot fail: for a non-empty
  long URL that no code maps to, the handler draws exactly one candidate, stores the
  long URL under it whether or not the candidate is already a key, and answers with it.
  Every other key keeps its value; a candidate that was already a key is overwritten.
  The call does not answer only where the generator does not return.
\<close>

theorem shorten_stores_first_candidate:
  assumes "longURL \<noteq> []" and "set keys = dom urlStore" and "longURL \<notin> ran urlStore"
  shows "shortenURLHandler keys rnd (shorten_request longURL) urlStore =
           (case generateShortCode rnd of
              Inl f \<Rightarrow> Inl f
            | Inr code \<Rightarrow> Inr (Json (short_url code), urlStore(code \<mapsto> longURL)))"
proof -
  from assms(2,3) have "range_urlStore keys urlStore longURL = None"
    by (simp add: range_urlStore_None_ran)
  with assms(1) show ?thesis
    by (simp add: shortenURLHandler_cases)
qed

theorem shorten_stores_first_candidate_witness:
  "shortenURLHandler [''AQIDBAUG''] (ReadOk [0, 0, 0, 0, 0, 0, 0, 0])
     (shorten_request ''https://example.com/b'') [''AQIDBAUG'' \<mapsto> ''https://example.com/a''] =
   Inr (Json (short_url ''AAAAAAAA''),
    [''AQIDBAUG'' \<mapsto> ''https://example.com/a'', ''AAAAAAAA'' \<mapsto> ''https://example.com/b''])"
  using shorten_stores_first_candidate [of "''https://example.com/b''" "[''AQIDBAUG'']"
      "[''AQIDBAUG'' \<mapsto> ''https://example.com/a'']" "ReadOk [0, 0, 0, 0, 0, 0, 0, 0]"]
  by (simp add: generateShortCode_zeros)

lemma serve_dom: "serve c urlStore = Inr urlStore' \<Longrightarrow> dom urlStore \<subseteq> dom urlStore'"
proof (cases c)
  case (CallShorten keys rnd r)
  assume "serve c urlStore = Inr urlStore'"
  with CallShorten obtain resp
    where "shortenURLHandler keys rnd r urlStore = Inr (resp, urlStore')"
    by (auto split: sum.splits)
  from shortenURLHandler_store [OF this] show ?thesis by auto
next
  case (CallRedirect rest r)
  assume "serve c urlStore = Inr urlStore'"
  with CallRedirect show ?thesis
    by (auto split: sum.splits dest: redirectHandler_store)
qed

lemma serve_keeps:
  assumes "serve c urlStore = Inr urlStore'" and "urlStore code = Some longURL"
    and "\<And>keys rnd r. c = CallShorten keys rnd r \<Longrightarrow> generateShortCode rnd \<noteq> Inr code"
  shows "urlStore' code = Some longURL"
proof (cases c)
  case (CallShorten keys rnd r)
  with assms(3) have ne: "generateShortCode rnd \<noteq> Inr code" by simp
  from assms(1) CallShorten obtain resp
    where "shortenURLHandler keys rnd r urlStore = Inr (resp, urlStore')"
    by (auto split: sum.splits)
  from shortenURLHandler_store [OF this] ne assms(2) show ?thesis by auto
next
  case (CallRedirect rest r)
  with assms(1,2) show ?thesis
    by (auto split: sum.splits dest: redirectHandler_store)
qed

lemma run_dom: "dom urlStore \<subseteq> dom (run calls urlStore)"
proof (induction calls arbitrary: urlStore)
  case Nil
  show ?case by simp
next
  case (Cons c calls)
  show ?case
  proof (cases "serve c urlStore")
    case (Inl f)
    then show ?thesis by simp
  next
    case (Inr urlStore')
    from serve_dom [OF Inr] Cons [of urlStore'] Inr show ?thesis by auto
  qed
qed

lemma run_keeps:
  assumes "urlStore code = Some longURL"
    and "\<forall>keys rnd r. CallShorten keys rnd r \<in> set calls \<longrightarrow> generateShortCode rnd \<noteq> Inr code"
  shows "run calls urlStore code = Some longURL"
  using assms
proof (induction calls arbitrary: urlStore)
  case Nil
  then show ?case by simp
next
  case (Cons c calls)
  show ?case
  proof (cases "serve c urlStore")
    case (Inl f)
    with Cons.prems(1) show ?thesis by simp
  next
    case (Inr urlStore')
    from Inr Cons.prems have "urlStore' code = Some longURL"
      by (intro serve_keeps [OF Inr]) auto
    moreover from Cons.prems(2)
    have "\<forall>keys rnd r. CallShorten keys rnd r \<in> set calls \<longrightarrow> generateShortCode rnd \<noteq> Inr code"
      by auto
    ultimately show ?thesis
      using Cons.IH [of urlStore'] Inr by simp
  qed
qed

text \<open>
  C5 (permanence), as stated: refuted. From the empty store, the request for a first long
  URL stores it under AQIDBAUG; the request for a second long URL, with the generator
  drawing the same bytes, leaves AQIDBAUG mapped to the second long URL.
\<close>

theorem permanence_counterexample:
  "run [CallShorten [] (ReadOk [1, 2, 3, 4, 5, 6, 7, 8])
          (shorten_request ''https://example.com/a'')] Map.empty ''AQIDBAUG'' =
     Some ''https://example.com/a'' \<and>
   run [CallShorten [] (ReadOk [1, 2, 3, 4, 5, 6, 7, 8])
          (shorten_request ''https://example.com/a''),
        CallShorten [''AQIDBAUG''] (ReadOk [1, 2, 3, 4, 5, 6, 7, 8])
          (shorten_request ''https://example.com/b'')] Map.empty ''AQIDBAUG'' =
     Some ''https://example.com/b''"
  by (simp add: shorten_example_a shorten_example_b)

text \<open>
  C5, amended. Over any sequence of calls of the two handlers, from any store: no key is
  ever removed, and a code keeps its long URL as long as no call to shorten in the
  sequence has a generator outcome that encodes to that same code.
\<close>

theorem records_kept:
  "dom urlStore \<subseteq> dom (run calls urlStore) \<and>
   (urlStore code = Some longURL \<longrightarrow>
    (\<forall>keys rnd r. CallShorten keys rnd r \<in> set calls \<longrightarrow> generateShortCode rnd \<noteq> Inr code) \<longrightarrow>
    run calls urlStore code = Some longURL)"
  using run_dom [of urlStore calls] run_keeps [of urlStore code longURL calls] by blast

theorem records_kept_witness:
  "dom [''AQIDBAUG'' \<mapsto> ''https://example.com/a''] \<subseteq>
     dom (run [CallRedirect RestHost (resolve_request ''AQIDBAUG''),
               CallShorten [''AQIDBAUG''] (ReadOk [0, 0, 0, 0, 0, 0, 0, 0])
                 (shorten_request ''https://example.com/b'')]
            [''AQIDBAUG'' \<mapsto> ''https://example.com/a'']) \<and>
   run [CallRedirect RestHost (resolve_request ''AQIDBAUG''),
        CallShorten [''AQIDBAUG''] (ReadOk [0, 0, 0, 0, 0, 0, 0, 0])
          (shorten_request ''https://example.com/b'')]
     [''AQIDBAUG'' \<mapsto> ''https://example.com/a''] ''AQIDBAUG'' = Some ''https://example.com/a''"
  using records_kept [of "[''AQIDBAUG'' \<mapsto> ''https://example.com/a'']"
      "[CallRedirect RestHost (resolve_request ''AQIDBAUG''),
        CallShorten [''AQIDBAUG''] (ReadOk [0, 0, 0, 0, 0, 0, 0, 0])
          (shorten_request ''https://example.com/b'')]"
      "''AQIDBAUG''" "''https://example.com/a''"]
  by (simp add: generateShortCode_zeros)

text \<open>
  C6 (dedup invariant), as stated: refuted. The first long URL is shortened with success;
  after the second request has drawn the same code, the store is reachable and no code
  maps to the first long URL, which has been shortened.
\<close>

theorem dedup_counterexample:
  "shortenURLHandler [] (ReadOk [1, 2, 3, 4, 5, 6, 7, 8])
          (shorten_request ''https://example.com/a'') Map.empty =
     Inr (Json (short_url ''AQIDBAUG''), [''AQIDBAUG'' \<mapsto> ''https://example.com/a'']) \<and>
   reachable (run [CallShorten [] (ReadOk [1, 2, 3, 4, 5, 6, 7, 8])
          (shorten_request ''https://example.com/a''),
        CallShorten [''AQIDBAUG''] (ReadOk [1, 2, 3, 4, 5, 6, 7, 8])
          (shorten_request ''https://example.com/b'')] Map.empty) \<and>
   ''https://example.com/a'' \<notin> ran (run [CallShorten [] (ReadOk [1, 2, 3, 4, 5, 6, 7, 8])
          (shorten_request ''https://example.com/a''),
        CallShorten [''AQIDBAUG''] (ReadOk [1, 2, 3, 4, 5, 6, 7, 8])
          (shorten_request ''https://example.com/b'')] Map.empty)"
  by (simp add: shorten_example_a shorten_example_b reachable_example_b)

text \<open>
  C6, amended. In every reachable store a code has one long URL (the store is a map) and
  at most one code maps to a given long URL. Right after a request to shorten a non-empty
  long URL exactly one code maps to it, and a request for a long URL that some code
  already maps to is answered and leaves the store as it is.
\<close>

theorem dedup_invariant:
  assumes "reachable urlStore"
  shows "(urlStore c1 = Some longURL \<longrightarrow> urlStore c2 = Some longURL \<longrightarrow> c1 = c2) \<and>
    (set keys = dom urlStore \<longrightarrow> longURL \<noteq> [] \<longrightarrow>
       (\<forall>resp urlStore'.
          shortenURLHandler keys rnd (shorten_request longURL) urlStore = Inr (resp, urlStore') \<longrightarrow>
          (\<exists>!code. urlStore' code = Some longURL)) \<and>
       (longURL \<in> ran urlStore \<longrightarrow>
          (\<exists>resp. shortenURLHandler keys rnd (shorten_request longURL) urlStore =
             Inr (resp, urlStore))))"
proof (intro conjI impI allI)
  assume "urlStore c1 = Some longURL" and "urlStore c2 = Some longURL"
  with assms show "c1 = c2" by (rule reachable_one_code)
next
  fix resp urlStore'
  assume k: "set keys = dom urlStore" and ne: "longURL \<noteq> []"
    and h: "shortenURLHandler keys rnd (shorten_request longURL) urlStore = Inr (resp, urlStore')"
  from assms k h have r: "reachable urlStore'" by (rule reachable.shorten)
  from ne h obtain code where "urlStore' code = Some longURL"
    using shortenURLHandler_maps by blast
  then show "\<exists>!code. urlStore' code = Some longURL"
    using reachable_one_code [OF r] by blast
next
  assume k: "set keys = dom urlStore" and ne: "longURL \<noteq> []" and "longURL \<in> ran urlStore"
  then have "range_urlStore keys urlStore longURL \<noteq> None"
    by (simp add: range_urlStore_None_ran)
  with ne show "\<exists>resp. shortenURLHandler keys rnd (shorten_request longURL) urlStore =
      Inr (resp, urlStore)"
    by (auto simp: shortenURLHandler_cases)
qed

theorem dedup_invariant_witness:
  "reachable [''AQIDBAUG'' \<mapsto> ''https://example.com/a''] \<and>
   (\<exists>!code. [''AQIDBAUG'' \<mapsto> ''https://example.com/a''] code = Some ''https://example.com/a'') \<and>
   shortenURLHandler [''AQIDBAUG''] (ReadOk [0, 0, 0, 0, 0, 0, 0, 0])
     (shorten_request ''https://example.com/a'') [''AQIDBAUG'' \<mapsto> ''https://example.com/a''] =
   Inr (Json (short_url ''AQIDBAUG''), [''AQIDBAUG'' \<mapsto> ''https://example.com/a''])"
proof -
  have h: "shortenURLHandler [''AQIDBAUG''] (ReadOk [0, 0, 0, 0, 0, 0, 0, 0])
      (shorten_request ''https://example.com/a'') [''AQIDBAUG'' \<mapsto> ''https://example.com/a''] =
    Inr (Json (short_url ''AQIDBAUG''), [''AQIDBAUG'' \<mapsto> ''https://example.com/a''])"
    by (simp add: shortenURLHandler_cases)
  from dedup_invariant [OF reachable_example_a, of "''AQIDBAUG''" "''https://example.com/a''"
      "''AQIDBAUG''" "[''AQIDBAUG'']" "ReadOk [0, 0, 0, 0, 0, 0, 0, 0]"] h
  have "\<exists>!code. [''AQIDBAUG'' \<mapsto> ''https://example.com/a''] code = Some ''https://example.com/a''"
    by simp
  with reachable_example_a h show ?thesis by simp
qed

text \<open>
  C7 (input validation). A POST request whose decoded body has an empty long URL is
  answered with the error 400 "Long URL cannot be empty"; the store is returned as it
  was, whatever the iteration order and the randomness source are (no code is drawn).
\<close>

theorem empty_long_url_rejected:
  assumes "Method r = ''POST''" and "Body r = Some req" and "LongURL req = []"
  shows "shortenURLHandler keys rnd r urlStore =
           Inr (Error ''Long URL cannot be empty'' 400, urlStore)"
  using assms by (simp add: shortenURLHandler_def)

theorem empty_long_url_rejected_witness:
  "shortenURLHandler [''AQIDBAUG''] ReadFatal (shorten_request [])
     [''AQIDBAUG'' \<mapsto> ''https://example.com/a''] =
   Inr (Error ''Long URL cannot be empty'' 400, [''AQIDBAUG'' \<mapsto> ''https://example.com/a''])"
  using empty_long_url_rejected [of "shorten_request []" "\<lparr>LongURL = []\<rparr>"
      "[''AQIDBAUG'']" ReadFatal "[''AQIDBAUG'' \<mapsto> ''https://example.com/a'']"]
  by (simp add: shorten_request_def)

text \<open>
  C8 (unknown code). A lookup of a code that is not a key of the store is answered with
  the error 404 "Short URL not found", and the store is returned as it was.
\<close>

theorem unknown_code_not_found:
  assumes "Path r = c # code" and "urlStore code = None"
  shows "redirectHandler rest r urlStore = Inr (Error ''Short URL not found'' 404, urlStore)"
  using assms by (simp add: redirectHandler_def)

theorem unknown_code_not_found_witness:
  "redirectHandler RestPlain (resolve_request ''zzzzzzzz'')
     [''AQIDBAUG'' \<mapsto> ''https://example.com/a''] =
   Inr (Error ''Short URL not found'' 404, [''AQIDBAUG'' \<mapsto> ''https://example.com/a''])"
  using unknown_code_not_found [of "resolve_request ''zzzzzzzz''" "CHR ''/''" "''zzzzzzzz''"
      "[''AQIDBAUG'' \<mapsto> ''https://example.com/a'']" RestPlain]
  by (simp add: resolve_request_def)

text \<open>
  C1 (round trip), as stated: refuted. The long URL \<^verbatim>\<open>example.com/a\<close> is shortened to
  AQIDBAUG; the lookup of AQIDBAUG redirects to \<^verbatim>\<open>/example.com/a\<close>, the target that
  \<^verbatim>\<open>http.Redirect\<close> makes of a long URL without scheme and host.
\<close>

theorem round_trip_counterexample:
  "shortenURLHandler [] (ReadOk [1, 2, 3, 4, 5, 6, 7, 8]) (shorten_request ''example.com/a'')
     Map.empty =
     Inr (Json \<lparr>ShortURL = ''http://localhost:8080/AQIDBAUG''\<rparr>,
          [''AQIDBAUG'' \<mapsto> ''example.com/a'']) \<and>
   redirectHandler RestPlain (resolve_request ''AQIDBAUG'') [''AQIDBAUG'' \<mapsto> ''example.com/a''] =
     Inr (Redirect ''/example.com/a'' 302, [''AQIDBAUG'' \<mapsto> ''example.com/a''])"
  by (simp add: shortenURLHandler_cases generateShortCode_counting short_url_def
      redirectHandler_def resolve_request_def Location_example)

text \<open>
  C1, amended. For every non-empty long URL, in any store, with any iteration order: when
  the request to shorten it is answered, the answer is the short URL
  \<^verbatim>\<open>http://localhost:8080/\<close> followed by a code; that code maps to the long URL in the
  resulting store, and its lookup is answered with a redirect of status 302. The target
  of the redirect is the long URL itself when the long URL is ASCII and either has a
  scheme or is not taken for a relative reference by \<^verbatim>\<open>url.Parse\<close>.
\<close>

theorem round_trip:
  assumes "longURL \<noteq> []"
    and "shortenURLHandler keys rnd (shorten_request longURL) urlStore = Inr (resp, urlStore')"
  shows "(\<exists>code. resp = Json \<lparr>ShortURL = ''http://localhost:8080/'' @ code\<rparr>) \<and>
    (\<forall>code. resp = Json \<lparr>ShortURL = ''http://localhost:8080/'' @ code\<rparr> \<longrightarrow>
       urlStore' code = Some longURL \<and>
       redirectHandler rest (resolve_request code) urlStore' =
         Inr (Redirect (http_Redirect_Location rest (CHR ''/'' # code) longURL) 302, urlStore') \<and>
       (is_ascii longURL \<longrightarrow> has_scheme longURL \<or> rest \<noteq> RestPlain \<longrightarrow>
          redirectHandler rest (resolve_request code) urlStore' =
            Inr (Redirect longURL 302, urlStore')))"
proof -
  from assms obtain code
    where c: "resp = Json (short_url code)" "urlStore' code = Some longURL"
    using shortenURLHandler_maps by blast
  have r: "redirectHandler rest (resolve_request code) urlStore' =
      Inr (Redirect (http_Redirect_Location rest (CHR ''/'' # code) longURL) 302, urlStore')"
    using c(2) by (simp add: redirectHandler_def resolve_request_def)
  have same: "redirectHandler rest (resolve_request code) urlStore' =
      Inr (Redirect longURL 302, urlStore')"
    if "is_ascii longURL" and "has_scheme longURL \<or> rest \<noteq> RestPlain"
    using r that by (simp add: http_Redirect_Location_same)
  from c(1) have "resp = Json \<lparr>ShortURL = ''http://localhost:8080/'' @ code\<rparr>"
    by (simp add: short_url_def)
  with c(2) r same show ?thesis by auto
qed

theorem round_trip_witness:
  "redirectHandler RestHost (resolve_request ''AQIDBAUG'')
     [''AQIDBAUG'' \<mapsto> ''https://example.com/a''] =
   Inr (Redirect ''https://example.com/a'' 302, [''AQIDBAUG'' \<mapsto> ''https://example.com/a''])"
proof -
  have ne: "''https://example.com/a'' \<noteq> []" by simp
  have e: "Json (short_url ''AQIDBAUG'') =
      Json \<lparr>ShortURL = ''http://localhost:8080/'' @ ''AQIDBAUG''\<rparr>"
    by (simp add: short_url_def)
  from round_trip [OF ne shorten_example_a, of RestHost] e has_scheme_example is_ascii_example
  show ?thesis
    by blast
qed

lemma take_Sprintf_x: "take (2 * n) (Sprintf_x b) = Sprintf_x (take n b)"
proof (induction b arbitrary: n)
  case Nil
  show ?case by (simp add: Sprintf_x_def)
next
  case (Cons x b)
  show ?case
  proof (cases n)
    case 0
    then show ?thesis by (simp add: Sprintf_x_def)
  next
    case (Suc m)
    with Cons [of m] show ?thesis by (simp add: Sprintf_x_def)
  qed
qed

text \<open>
  C4 (randomness failure), as stated: refuted. With a randomness source that returns an
  error without writing a byte, the generator returns the code 00000000 and the request
  is answered with it and stored: no error is propagated.
\<close>

theorem randomness_failure_counterexample:
  "generateShortCode (ReadError []) = Inr ''00000000'' \<and>
   shortenURLHandler [] (ReadError []) (shorten_request ''https://example.com/a'') Map.empty =
   Inr (Json (short_url ''00000000''), [''00000000'' \<mapsto> ''https://example.com/a''])"
  by (simp add: generateShortCode_error_nothing shortenURLHandler_cases)

text \<open>
  C4, amended. The generator never hands an error to its caller. When the read returns
  an error, it falls back to the lower-case hexadecimal digits of the first four bytes
  of the buffer. It fails to return exactly when the failed read aborts the process.
  Whenever it returns, it returns a code of \<open>shortCodeLength\<close> characters.
\<close>

theorem generateShortCode_outcomes:
  "(generateShortCode r = Inl RandReadFatal \<longleftrightarrow> r = ReadFatal) \<and>
   (\<forall>code. generateShortCode r = Inr code \<longrightarrow> length code = shortCodeLength) \<and>
   (\<forall>bs. r = ReadError bs \<longrightarrow>
      generateShortCode r = Inr (Sprintf_x (take 4 (written bs (make_bytes shortCodeLength)))))"
proof -
  have "take 8 (Sprintf_x b) = Sprintf_x (take 4 b)" for b
    using take_Sprintf_x [of 4 b] by simp
  then show ?thesis
    by (simp add: generateShortCode_Inl length_generateShortCode generateShortCode_ReadError
        shortCodeLength_def)
qed

theorem generateShortCode_outcomes_witness:
  "generateShortCode (ReadError [171, 205]) \<noteq> Inl RandReadFatal \<and>
   generateShortCode (ReadError [171, 205]) = Inr ''abcd0000''"
proof -
  have b: "written [171, 205] (make_bytes shortCodeLength) = [171, 205, 0, 0, 0, 0, 0, 0]"
    by (simp add: written_def make_bytes_def shortCodeLength_def eval_nat_numeral)
  have s: "Sprintf_x [171, 205, 0, 0] = ''abcd0000''"
    by (simp add: Sprintf_x_def ldigits_def)
  from generateShortCode_outcomes [of "ReadError [171, 205]"]
  show ?thesis
    by (simp add: b s)
qed

text \<open>
  C10 (totality on valid input), as stated: refuted. The long URL is not in the store and
  the failed read aborts the process: the request gets no answer.
\<close>

theorem shorten_total_counterexample:
  "shortenURLHandler [] ReadFatal (shorten_request ''https://example.com/a'') Map.empty =
     Inl RandReadFatal"
  by (simp add: shortenURLHandler_cases generateShortCode_ReadFatal)

text \<open>
  C10, amended. A POST request whose decoded body has a non-empty long URL is never
  answered with an error. It gets no answer exactly when no code maps to the long URL and
  the failed read aborts the process. In every other case, in every store, for every
  iteration order, and whether the read returns an error or not, it is answered with the
  short URL \<^verbatim>\<open>http://localhost:8080/\<close> followed by a code that maps to the long URL in the
  store that results: the code the scan has found, with the store as it was, or the
  code of \<open>shortCodeLength\<close> characters just generated, stored whether or not it was a
  key already.
\<close>

theorem shorten_total:
  assumes "Method r = ''POST''" and "Body r = Some req" and "LongURL req \<noteq> []"
  shows "(shortenURLHandler keys rnd r urlStore = Inl RandReadFatal \<longleftrightarrow>
            range_urlStore keys urlStore (LongURL req) = None \<and> rnd = ReadFatal) \<and>
    (range_urlStore keys urlStore (LongURL req) \<noteq> None \<or> rnd \<noteq> ReadFatal \<longrightarrow>
       (\<exists>code urlStore'.
          shortenURLHandler keys rnd r urlStore =
            Inr (Json \<lparr>ShortURL = ''http://localhost:8080/'' @ code\<rparr>, urlStore') \<and>
          urlStore' code = Some (LongURL req) \<and>
          (range_urlStore keys urlStore (LongURL req) = Some code \<and> urlStore' = urlStore \<or>
           range_urlStore keys urlStore (LongURL req) = None \<and>
           generateShortCode rnd = Inr code \<and> length code = shortCodeLength \<and>
           urlStore' = urlStore(code \<mapsto> LongURL req))))"
proof (cases "range_urlStore keys urlStore (LongURL req)")
  case (Some short)
  then have "urlStore short = Some (LongURL req)" by (rule range_urlStore_Some)
  with assms Some show ?thesis
    by (simp add: shortenURLHandler_def short_url_def)
next
  case None
  show ?thesis
  proof (cases "generateShortCode rnd")
    case (Inl f)
    then have "rnd = ReadFatal" by (simp add: generateShortCode_Inl)
    with assms None Inl show ?thesis
      by (cases f) (simp add: shortenURLHandler_def)
  next
    case (Inr code)
    then have "rnd \<noteq> ReadFatal" by (auto simp: generateShortCode_ReadFatal)
    moreover from Inr have "length code = shortCodeLength" by (rule length_generateShortCode)
    ultimately show ?thesis
      using assms None Inr by (simp add: shortenURLHandler_def short_url_def)
  qed
qed

theorem shorten_total_witness:
  "shortenURLHandler [''AQIDBAUG''] (ReadOk [1, 2, 3, 4, 5, 6, 7, 8])
     (shorten_request ''https://example.com/b'') [''AQIDBAUG'' \<mapsto> ''https://example.com/a''] \<noteq>
     Inl RandReadFatal \<and>
   (\<exists>code urlStore'.
      shortenURLHandler [''AQIDBAUG''] (ReadOk [1, 2, 3, 4, 5, 6, 7, 8])
        (shorten_request ''https://example.com/b'') [''AQIDBAUG'' \<mapsto> ''https://example.com/a''] =
      Inr (Json \<lparr>ShortURL = ''http://localhost:8080/'' @ code\<rparr>, urlStore') \<and>
      urlStore' code = Some ''https://example.com/b'' \<and> length code = shortCodeLength)"
  using shorten_total [of "shorten_request ''https://example.com/b''"
      "\<lparr>LongURL = ''https://example.com/b''\<rparr>" "[''AQIDBAUG'']"
      "ReadOk [1, 2, 3, 4, 5, 6, 7, 8]" "[''AQIDBAUG'' \<mapsto> ''https://example.com/a'']"]
  by (auto simp: shorten_request_def)

end
